theory Spec2Isabelle
  imports Complex_Main "HOL-Library.Word" "HOL-Library.AList"
begin

section \<open>JavaScript values\<close>

text \<open>
  A JavaScript string is a sequence of UTF-16 code units; \<open>length\<close> counts code units,
  as \<^verbatim>\<open>String.prototype.length\<close> and joi's \<^verbatim>\<open>min\<close>/\<^verbatim>\<open>max\<close> do, and a regular expression
  without the \<^verbatim>\<open>u\<close> flag matches code units. \<open>str\<close> embeds an ASCII literal.
\<close>

type_synonym js_string = "16 word list"

definition str :: "string \<Rightarrow> js_string" where
  "str s = map of_char s"

text \<open>
  The request body as \<^verbatim>\<open>express.json()\<close> leaves it: a parsed JSON value. An object is the
  list of its own properties in enumeration order, with distinct keys; \<^verbatim>\<open>JSON.parse\<close>
  makes a key \<^verbatim>\<open>__proto__\<close> an own property like any other. \<open>field\<close> is the read
  \<^verbatim>\<open>req.body.k\<close> of the handlers for the four names they read, none of which
  \<^verbatim>\<open>Object.prototype\<close> has: the own property, \<open>None\<close> standing for \<^verbatim>\<open>undefined\<close>.
\<close>

datatype json =
    JNull
  | JBool bool
  | JNum rat
  | JStr js_string
  | JArr "json list"
  | JObj "(js_string \<times> json) list"

definition field :: "json \<Rightarrow> js_string \<Rightarrow> json option" where
  "field body k = (case body of JObj kvs \<Rightarrow> map_of kvs k | _ \<Rightarrow> None)"

section \<open>The libraries the application calls\<close>

text \<open>
  \<^verbatim>\<open>joi\<close> and \<^verbatim>\<open>bcryptjs\<close> are dependencies, not code of the application. What the
  application takes from them without fixing it is a parameter: joi's email syntax
  (\<open>isEmail\<close>), the hash derived from a password string and a salt (\<open>hashString\<close>) and
  the comparison of a password string with a stored hash string (\<open>compareHash\<close>), both
  taken to return for all strings. The salt that \<^verbatim>\<open>genSaltSync()\<close> returns is an
  argument of the registration.
\<close>

record deps =
  isEmail :: "js_string \<Rightarrow> bool"
  hashString :: "js_string \<Rightarrow> js_string \<Rightarrow> js_string"
  compareHash :: "js_string \<Rightarrow> js_string \<Rightarrow> bool"

datatype error =
    UsernameAlreadyExists js_string
  | EmailAlreadyExists js_string
  | InvalidCredentials
  | Error js_string

text \<open>
  \<^verbatim>\<open>hashSync(s, salt)\<close> and \<^verbatim>\<open>compareSync(s, hash)\<close> of bcryptjs throw
  \<^verbatim>\<open>Error("Illegal arguments: " + typeof s + ", " + typeof ...)\<close> unless both arguments are
  strings. The values the application passes are strings or \<^verbatim>\<open>undefined\<close> (\<open>None\<close>); the
  salt is always the string \<^verbatim>\<open>genSaltSync()\<close> returned.
\<close>

fun typeof :: "js_string option \<Rightarrow> js_string" where
  "typeof None = str ''undefined''"
| "typeof (Some _) = str ''string''"

definition illegal_arguments :: "js_string option \<Rightarrow> js_string option \<Rightarrow> error" where
  "illegal_arguments a b = Error (str ''Illegal arguments: '' @ typeof a @ str '', '' @ typeof b)"

definition hashSync :: "deps \<Rightarrow> js_string option \<Rightarrow> js_string \<Rightarrow> error + js_string" where
  "hashSync D s salt' =
     (case s of
        Some password \<Rightarrow> Inr (hashString D password salt')
      | None \<Rightarrow> Inl (illegal_arguments s (Some salt')))"

definition compareSync :: "deps \<Rightarrow> js_string option \<Rightarrow> js_string option \<Rightarrow> error + bool" where
  "compareSync D s hash =
     (case (s, hash) of
        (Some password, Some h) \<Rightarrow> Inr (compareHash D password h)
      | _ \<Rightarrow> Inl (illegal_arguments s hash))"

section \<open>Validation with joi\<close>

text \<open>
  The two schemas use \<^verbatim>\<open>joi.string()\<close> with the rules \<^verbatim>\<open>min\<close>, \<^verbatim>\<open>max\<close>, \<^verbatim>\<open>email\<close> and
  \<^verbatim>\<open>custom\<close>, and \<^verbatim>\<open>joi.valid(...)\<close>; every key is \<^verbatim>\<open>required()\<close>. \<^verbatim>\<open>joi.attempt\<close> runs
  with joi's defaults: it stops at the first error (\<^verbatim>\<open>abortEarly\<close>), validates the keys in
  the order the schema declares them, each key's rules in the order they were added,
  and rejects a key the schema does not declare after the declared ones.
  A validation returns \<open>Some message\<close> for the error joi throws, \<open>None\<close> when the value
  is accepted. The label of a key in a message is the key in double quotes, and
  \<^verbatim>\<open>"value"\<close> for the empty key.
\<close>

datatype rule =
    Min nat
  | Max nat
  | Email
  | Custom "js_string \<Rightarrow> js_string option"

datatype schema =
    String_schema "rule list"
  | Valid_schema "js_string list"

type_synonym object_schema = "(js_string \<times> schema) list"

definition label :: "js_string \<Rightarrow> js_string" where
  "label k = str ''\"'' @ (if k = [] then str ''value'' else k) @ str ''\"''"

text \<open>The decimal digits of a limit, as the message templates of joi print it.\<close>

fun decimal :: "nat \<Rightarrow> js_string" where
  "decimal n =
     (if n < 10 then [of_nat (48 + n)] else decimal (n div 10) @ [of_nat (48 + n mod 10)])"

declare decimal.simps [simp del]

fun join :: "js_string list \<Rightarrow> js_string" where
  "join [] = []"
| "join [v] = v"
| "join (v # vs) = v @ str '', '' @ join vs"

fun check_rule :: "deps \<Rightarrow> js_string \<Rightarrow> rule \<Rightarrow> js_string \<Rightarrow> js_string option" where
  "check_rule D k (Min n) v =
     (if length v < n
      then Some (label k @ str '' length must be at least '' @ decimal n
                 @ str '' characters long'')
      else None)"
| "check_rule D k (Max n) v =
     (if n < length v
      then Some (label k @ str '' length must be less than or equal to '' @ decimal n
                 @ str '' characters long'')
      else None)"
| "check_rule D k Email v =
     (if isEmail D v then None else Some (label k @ str '' must be a valid email''))"
| "check_rule D k (Custom f) v = f v"

fun check_rules :: "deps \<Rightarrow> js_string \<Rightarrow> rule list \<Rightarrow> js_string \<Rightarrow> js_string option" where
  "check_rules D k [] v = None"
| "check_rules D k (r # rs) v =
     (case check_rule D k r v of Some m \<Rightarrow> Some m | None \<Rightarrow> check_rules D k rs v)"

definition only_message :: "js_string \<Rightarrow> js_string list \<Rightarrow> js_string" where
  "only_message k vs =
     label k @ str '' must be '' @ (if length vs = 1 then [] else str ''one of '')
     @ str ''['' @ join vs @ str '']''"

fun validate_key :: "deps \<Rightarrow> js_string \<Rightarrow> schema \<Rightarrow> json option \<Rightarrow> js_string option" where
  "validate_key D k s None = Some (label k @ str '' is required'')"
| "validate_key D k (String_schema rs) (Some (JStr v)) =
     (if v = [] then Some (label k @ str '' is not allowed to be empty'')
      else check_rules D k rs v)"
| "validate_key D k (String_schema rs) (Some _) = Some (label k @ str '' must be a string'')"
| "validate_key D k (Valid_schema vs) (Some (JStr v)) =
     (if v \<in> set vs then None else Some (only_message k vs))"
| "validate_key D k (Valid_schema vs) (Some _) = Some (only_message k vs)"

text \<open>
  joi does not validate \<^verbatim>\<open>req.body\<close> itself but a shallow copy: an object with the
  prototype of the body, to which \<^verbatim>\<open>Object.assign\<close> copies the own properties. The
  assignment of the key \<^verbatim>\<open>__proto__\<close> does not create a property; it runs the setter of
  \<^verbatim>\<open>Object.prototype\<close>, which makes an object value the prototype of the copy (and
  ignores a string, number or boolean). So the own keys of the copy are those of the
  body without \<^verbatim>\<open>__proto__\<close>, and the copy has, for a key of a schema (none of which is
  \<^verbatim>\<open>__proto__\<close>, an array index or a member of a built-in prototype), the own property
  of the body or else the property of the object given as \<^verbatim>\<open>__proto__\<close>.
\<close>

definition copy_keys :: "(js_string \<times> json) list \<Rightarrow> js_string list" where
  "copy_keys kvs = filter (\<lambda>k. k \<noteq> str ''__proto__'') (map fst kvs)"

definition copy_value :: "(js_string \<times> json) list \<Rightarrow> js_string \<Rightarrow> json option" where
  "copy_value kvs k =
     (case map_of kvs k of
        Some v \<Rightarrow> Some v
      | None \<Rightarrow>
          (case map_of kvs (str ''__proto__'') of
             Some (JObj proto) \<Rightarrow> map_of proto k
           | _ \<Rightarrow> None))"

fun validate_keys :: "deps \<Rightarrow> object_schema \<Rightarrow> (js_string \<times> json) list \<Rightarrow> js_string option" where
  "validate_keys D [] kvs = None"
| "validate_keys D ((k, s) # rest) kvs =
     (case validate_key D k s (copy_value kvs k) of
        Some m \<Rightarrow> Some m
      | None \<Rightarrow> validate_keys D rest kvs)"

definition unknown_key :: "object_schema \<Rightarrow> (js_string \<times> json) list \<Rightarrow> js_string option" where
  "unknown_key schema kvs =
     (case filter (\<lambda>k. k \<notin> set (map fst schema)) (copy_keys kvs) of
        [] \<Rightarrow> None
      | k # _ \<Rightarrow> Some (label k @ str '' is not allowed''))"

definition attempt :: "deps \<Rightarrow> json \<Rightarrow> object_schema \<Rightarrow> js_string option" where
  "attempt D body objectSchema =
     (case body of
        JObj kvs \<Rightarrow>
          (case validate_keys D objectSchema kvs of
             Some m \<Rightarrow> Some m
           | None \<Rightarrow> unknown_key objectSchema kvs)
      | _ \<Rightarrow> Some (str ''\"value\" must be of type object''))"

subsection \<open>The schemas of the application\<close>

definition is_upper :: "16 word \<Rightarrow> bool" where
  "is_upper c = (0x41 \<le> c \<and> c \<le> 0x5A)"

definition is_lower :: "16 word \<Rightarrow> bool" where
  "is_lower c = (0x61 \<le> c \<and> c \<le> 0x7A)"

definition is_digit :: "16 word \<Rightarrow> bool" where
  "is_digit c = (0x30 \<le> c \<and> c \<le> 0x39)"

text \<open>The characters of \<^verbatim>\<open>[a-zA-Z0-9]\<close>.\<close>

definition alnum :: "16 word \<Rightarrow> bool" where
  "alnum c = (is_lower c \<or> is_upper c \<or> is_digit c)"

definition upper_message :: js_string where
  "upper_message = str ''password must have an upper case character''"

definition lower_message :: js_string where
  "lower_message = str ''password must have a lower case character''"

definition special_message :: js_string where
  "special_message = str ''password must have a special case character''"

text \<open>The function given to \<^verbatim>\<open>.custom\<close>: the three regular expression tests, in its order.\<close>

definition password_custom :: "js_string \<Rightarrow> js_string option" where
  "password_custom v =
     (let upper = list_ex is_upper v;
          lower = list_ex is_lower v;
          special = \<not> list_all alnum v
      in if \<not> upper then Some upper_message
         else if \<not> lower then Some lower_message
         else if \<not> special then Some special_message
         else None)"

definition registration_schema :: object_schema where
  "registration_schema =
     [(str ''username'', String_schema [Min 3, Max 24]),
      (str ''email'', String_schema [Email]),
      (str ''type'', Valid_schema [str ''user'', str ''admin'']),
      (str ''password'', String_schema [Min 5, Max 24, Custom password_custom])]"

definition login_schema :: object_schema where
  "login_schema =
     [(str ''username'', String_schema []),
      (str ''password'', String_schema [])]"

section \<open>Responses and the error handler\<close>

text \<open>
  A response is a status with a JSON body. An error the application's handler does not
  know is passed on to the default handler of Express, which answers 500:
  \<open>ServerError\<close>, with the message of the error.
\<close>

datatype response =
    Response nat json
  | ServerError js_string

text \<open>
  The three error classes of the application carry a status, a name and a message; any
  other error has its message only, and 500 is what the default handler answers.
\<close>

fun status :: "error \<Rightarrow> nat" where
  "status (UsernameAlreadyExists _) = 409"
| "status (EmailAlreadyExists _) = 409"
| "status InvalidCredentials = 401"
| "status (Error _) = 500"

fun name :: "error \<Rightarrow> js_string" where
  "name (UsernameAlreadyExists _) = str ''UsernameAlreadyExists''"
| "name (EmailAlreadyExists _) = str ''EmailAlreadyExists''"
| "name InvalidCredentials = str ''InvalidCredentials''"
| "name (Error _) = str ''Error''"

text \<open>
  The constructors of the two conflict errors put their argument into a template
  literal; the errors are modelled with the string that is inserted (\<open>to_string\<close> below
  for a value that may be \<^verbatim>\<open>undefined\<close>).
\<close>

fun message :: "error \<Rightarrow> js_string" where
  "message (UsernameAlreadyExists username) =
     str ''A user with the username '' @ username @ str '' already exists.''"
| "message (EmailAlreadyExists email) =
     str ''A user with the email '' @ email @ str '' already exists.''"
| "message InvalidCredentials = str ''Invalid username/password.''"
| "message (Error m) = m"

fun errorHandler :: "error \<Rightarrow> response" where
  "errorHandler (Error m) = ServerError m"
| "errorHandler err =
     Response (status err)
       (JObj [(str ''error_name'', JStr (name err)), (str ''error_message'', JStr (message err))])"

text \<open>
  \<open>validateReqBody\<close>: \<open>Some\<close> response when the middleware answers 400 itself, \<open>None\<close>
  when it calls \<^verbatim>\<open>next()\<close>. The value \<^verbatim>\<open>joi.attempt\<close> returns is dropped: the handlers
  read \<^verbatim>\<open>req.body\<close>.
\<close>

definition validateReqBody :: "deps \<Rightarrow> object_schema \<Rightarrow> json \<Rightarrow> response option" where
  "validateReqBody D objectSchema body =
     (case attempt D body objectSchema of
        Some m \<Rightarrow> Some (Response 400 (JObj [(str ''error'', JStr m)]))
      | None \<Rightarrow> None)"

definition validateRegistration :: "deps \<Rightarrow> json \<Rightarrow> response option" where
  "validateRegistration D = validateReqBody D registration_schema"

definition validateLogin :: "deps \<Rightarrow> json \<Rightarrow> response option" where
  "validateLogin D = validateReqBody D login_schema"

section \<open>The in-memory directory\<close>

text \<open>
  The interface \<^verbatim>\<open>UserEntry\<close> declares four strings. The handler stores what it read
  from the body without a check, and a property it read may be \<^verbatim>\<open>undefined\<close>; the salt
  and the hash come from bcryptjs and are strings.
\<close>

record UserEntry =
  email :: "js_string option"
  type :: "js_string option"
  salt :: js_string
  passwordhash :: js_string

text \<open>
  \<^verbatim>\<open>MEMORY_DB\<close> is an object literal used as a dictionary: its own properties, in the
  order they were added, with distinct keys. Its prototype is \<^verbatim>\<open>Object.prototype\<close>, so
  \<^verbatim>\<open>MEMORY_DB[name]\<close> is the own property of that name when there is one, the member of
  \<^verbatim>\<open>Object.prototype\<close> of that name when there is one (a function, or for \<^verbatim>\<open>__proto__\<close>
  the prototype object itself: a truthy value without a \<^verbatim>\<open>passwordhash\<close>), and
  \<^verbatim>\<open>undefined\<close> otherwise. A name that is \<^verbatim>\<open>undefined\<close> is converted to the property key
  \<^verbatim>\<open>"undefined"\<close>, as a template literal converts it.
\<close>

type_synonym memory_db = "(js_string \<times> UserEntry) list"

datatype lookup = Undefined | Entry UserEntry | Inherited

definition object_prototype_keys :: "js_string list" where
  "object_prototype_keys =
     map str [''constructor'', ''__defineGetter__'', ''__defineSetter__'', ''hasOwnProperty'',
              ''__lookupGetter__'', ''__lookupSetter__'', ''isPrototypeOf'',
              ''propertyIsEnumerable'', ''toString'', ''valueOf'', ''__proto__'',
              ''toLocaleString'']"

fun to_string :: "js_string option \<Rightarrow> js_string" where
  "to_string None = str ''undefined''"
| "to_string (Some v) = v"

definition getUserByUsername :: "memory_db \<Rightarrow> js_string option \<Rightarrow> lookup" where
  "getUserByUsername db name' =
     (case map_of db (to_string name') of
        Some u \<Rightarrow> Entry u
      | None \<Rightarrow> if to_string name' \<in> set object_prototype_keys then Inherited else Undefined)"

fun truthy :: "lookup \<Rightarrow> bool" where
  "truthy Undefined = False"
| "truthy (Entry _) = True"
| "truthy Inherited = True"

fun passwordhash_of :: "lookup \<Rightarrow> js_string option" where
  "passwordhash_of (Entry u) = Some (passwordhash u)"
| "passwordhash_of _ = None"

text \<open>
  \<^verbatim>\<open>Object.values(MEMORY_DB).find(...)\<close> looks at the own properties only and compares
  with \<^verbatim>\<open>===\<close>, under which \<^verbatim>\<open>undefined\<close> equals \<^verbatim>\<open>undefined\<close> alone. The callers test the
  result for truthiness, so which of several matching entries is returned is never
  observed.
\<close>

definition getUserByEmail :: "memory_db \<Rightarrow> js_string option \<Rightarrow> UserEntry option" where
  "getUserByEmail db email' = find (\<lambda>u. email u = email') (map snd db)"

section \<open>The routes\<close>

text \<open>
  What a handler gets from \<^verbatim>\<open>req.body\<close> for a name: after the validation, a string or
  \<^verbatim>\<open>undefined\<close>. The casts of the source check nothing; an own property of the body is
  what joi validated, hence a string, and a property that joi found in the object given
  as \<^verbatim>\<open>__proto__\<close> is \<^verbatim>\<open>undefined\<close> in the body (lemmas \<open>validated_fields\<close> and
  \<open>validated_login_fields\<close> below). For any other value \<open>read\<close> is \<open>None\<close>, and the last
  branch of each handler, which stands for it, is never taken.
\<close>

fun read :: "json option \<Rightarrow> js_string option option" where
  "read None = Some None"
| "read (Some (JStr v)) = Some (Some v)"
| "read (Some _) = None"

text \<open>
  \<^verbatim>\<open>res.json\<close> serialises with \<^verbatim>\<open>JSON.stringify\<close>, which leaves out a property whose value
  is \<^verbatim>\<open>undefined\<close>.
\<close>

fun stringify :: "(js_string \<times> js_string option) list \<Rightarrow> (js_string \<times> json) list" where
  "stringify [] = []"
| "stringify ((k, None) # rest) = stringify rest"
| "stringify ((k, Some v) # rest) = (k, JStr v) # stringify rest"

text \<open>
  The handler of \<^verbatim>\<open>/register\<close>, run after \<open>validateRegistration\<close> called \<^verbatim>\<open>next()\<close>. An
  error that \<^verbatim>\<open>hashSync\<close> throws reaches the error handler through Express. The
  assignment \<^verbatim>\<open>MEMORY_DB[username] = ...\<close> is reached only for a name whose lookup was
  \<^verbatim>\<open>undefined\<close>, where it adds an own property.
\<close>

definition register_handler ::
  "deps \<Rightarrow> js_string \<Rightarrow> memory_db \<Rightarrow> json \<Rightarrow> memory_db \<times> response" where
  "register_handler D salt' db body =
     (case (read (field body (str ''username'')), read (field body (str ''email'')),
            read (field body (str ''password'')), read (field body (str ''type''))) of
        (Some username, Some email', Some password, Some type') \<Rightarrow>
          if truthy (getUserByUsername db username)
          then (db, errorHandler (UsernameAlreadyExists (to_string username)))
          else if getUserByEmail db email' \<noteq> None
          then (db, errorHandler (EmailAlreadyExists (to_string email')))
          else
            (case hashSync D password salt' of
               Inl err \<Rightarrow> (db, errorHandler err)
             | Inr passwordhash' \<Rightarrow>
                 (AList.update (to_string username)
                    \<lparr>email = email', type = type', salt = salt', passwordhash = passwordhash'\<rparr>
                    db,
                  Response 201
                    (JObj (stringify [(str ''username'', username), (str ''email'', email'),
                                      (str ''type'', type')]))))
      | _ \<Rightarrow> (db, ServerError (str ''unreachable'')))"

definition register :: "deps \<Rightarrow> js_string \<Rightarrow> memory_db \<Rightarrow> json \<Rightarrow> memory_db \<times> response" where
  "register D salt' db body =
     (case validateRegistration D body of
        Some res \<Rightarrow> (db, res)
      | None \<Rightarrow> register_handler D salt' db body)"

definition login_handler :: "deps \<Rightarrow> memory_db \<Rightarrow> json \<Rightarrow> response" where
  "login_handler D db body =
     (case (read (field body (str ''username'')), read (field body (str ''password''))) of
        (Some username, Some password) \<Rightarrow>
          let user = getUserByUsername db username in
          if \<not> truthy user then errorHandler InvalidCredentials
          else (case compareSync D password (passwordhash_of user) of
                  Inl err \<Rightarrow> errorHandler err
                | Inr ok \<Rightarrow>
                    if \<not> ok then errorHandler InvalidCredentials
                    else Response 200 (JObj []))
      | _ \<Rightarrow> ServerError (str ''unreachable''))"

definition login :: "deps \<Rightarrow> memory_db \<Rightarrow> json \<Rightarrow> response" where
  "login D db body =
     (case validateLogin D body of
        Some res \<Rightarrow> res
      | None \<Rightarrow> login_handler D db body)"

section \<open>Sequences of calls\<close>

text \<open>
  A call of the service: a registration with the salt \<^verbatim>\<open>genSaltSync()\<close> returns for it, or
  a login. \<open>run\<close> is the directory after a sequence of calls.
\<close>

datatype call = Register js_string json | Login json

fun exec :: "deps \<Rightarrow> call \<Rightarrow> memory_db \<Rightarrow> memory_db \<times> response" where
  "exec D (Register salt' body) db = register D salt' db body"
| "exec D (Login body) db = (db, login D db body)"

fun run :: "deps \<Rightarrow> call list \<Rightarrow> memory_db \<Rightarrow> memory_db" where
  "run D [] db = db"
| "run D (c # cs) db = run D cs (fst (exec D c db))"

text \<open>The status of a response; 201 is the successful registration, 200 the successful login.\<close>

fun status_code :: "response \<Rightarrow> nat" where
  "status_code (Response n _) = n"
| "status_code (ServerError _) = 500"

text \<open>The login request for a username and a password.\<close>

definition creds :: "js_string \<Rightarrow> js_string \<Rightarrow> json" where
  "creds username password = JObj [(str ''username'', JStr username), (str ''password'', JStr password)]"

text \<open>
  An instance of the parameters, for evaluating the model on concrete requests: an email
  contains \<open>@\<close>, the hash is the salt followed by the password, and the comparison
  reads the password behind a salt of four code units.
\<close>

definition reference_deps :: deps where
  "reference_deps =
     \<lparr>isEmail = (\<lambda>v. of_char CHR ''@'' \<in> set v),
      hashString = (\<lambda>s salt'. salt' @ s),
      compareHash = (\<lambda>s h. drop 4 h = s)\<rparr>"

text \<open>A property that is \<^verbatim>\<open>undefined\<close>, not a string, or the empty string.\<close>

fun absent_or_empty :: "json option \<Rightarrow> bool" where
  "absent_or_empty (Some (JStr v)) = (v = [])"
| "absent_or_empty _ = True"

text \<open>The usernames and the emails of the stored records, one per record.\<close>

definition usernames :: "memory_db \<Rightarrow> js_string list" where
  "usernames db = map fst db"

definition emails :: "memory_db \<Rightarrow> js_string option list" where
  "emails db = map (\<lambda>(k, u). email u) db"

text \<open>A registration request that passes the validation, and the directory it leaves.\<close>

definition alice_request :: json where
  "alice_request =
     JObj [(str ''username'', JStr (str ''alice'')), (str ''email'', JStr (str ''a@x.com'')),
           (str ''type'', JStr (str ''user'')), (str ''password'', JStr (str ''Abc!2''))]"

definition alice_entry :: UserEntry where
  "alice_entry =
     \<lparr>email = Some (str ''a@x.com''), type = Some (str ''user''), salt = str ''salt'',
      passwordhash = str ''saltAbc!2''\<rparr>"

definition alice_db :: memory_db where
  "alice_db = [(str ''alice'', alice_entry)]"

section \<open>Specification-side definitions\<close>

text \<open>
  For the fail-fast claim, the rules a request violates, all of them: for a key, every
  rule of its schema that the value violates, in the order the rules were added (a
  missing, non-string or empty value violates the one rule that stops the others from
  applying); for a request, those of all keys in the order the schema declares them,
  on the values joi validates.
\<close>

fun key_violations :: "deps \<Rightarrow> js_string \<Rightarrow> schema \<Rightarrow> json option \<Rightarrow> js_string list" where
  "key_violations D k s None = [label k @ str '' is required'']"
| "key_violations D k (String_schema rs) (Some (JStr v)) =
     (if v = [] then [label k @ str '' is not allowed to be empty'']
      else List.map_filter (\<lambda>r. check_rule D k r v) rs)"
| "key_violations D k (String_schema rs) (Some _) = [label k @ str '' must be a string'']"
| "key_violations D k (Valid_schema vs) (Some (JStr v)) =
     (if v \<in> set vs then [] else [only_message k vs])"
| "key_violations D k (Valid_schema vs) (Some _) = [only_message k vs]"

definition violations :: "deps \<Rightarrow> object_schema \<Rightarrow> (js_string \<times> json) list \<Rightarrow> js_string list" where
  "violations D schema kvs =
     concat (map (\<lambda>(k, s). key_violations D k s (copy_value kvs k)) schema)"


text \<open>Two requests that violate rules: one in every field, one in the username and the password.\<close>

definition sloppy_request :: "(js_string \<times> json) list" where
  "sloppy_request =
     [(str ''username'', JStr (str ''ab'')), (str ''email'', JStr (str ''nobody'')),
      (str ''type'', JStr (str ''root'')), (str ''password'', JStr (str ''abc''))]"

definition short_name_request :: "(js_string \<times> json) list" where
  "short_name_request =
     [(str ''username'', JStr (str ''ab'')), (str ''email'', JStr (str ''a@x.com'')),
      (str ''type'', JStr (str ''user'')), (str ''password'', JStr (str ''abcde''))]"


definition inherited_credentials :: json where
  "inherited_credentials =
     JObj [(str ''__proto__'',
            JObj [(str ''username'', JStr (str ''alice'')), (str ''password'', JStr (str ''Abc!2''))])]"

definition undefined_db :: memory_db where
  "undefined_db = [(str ''undefined'', alice_entry)]"

section \<open>Evaluation\<close>

text \<open>The definitions a concrete request is evaluated with.\<close>

lemmas eval_defs = register_def validateRegistration_def validateReqBody_def attempt_def
        registration_schema_def label_def str_def alice_request_def alice_db_def alice_entry_def
        reference_deps_def password_custom_def is_upper_def is_lower_def is_digit_def alnum_def
        unknown_key_def copy_keys_def copy_value_def register_handler_def field_def
        getUserByUsername_def object_prototype_keys_def getUserByEmail_def login_def
        validateLogin_def login_schema_def creds_def login_handler_def compareSync_def
        hashSync_def illegal_arguments_def

section \<open>What the validation accepts\<close>

lemma validate_key_String_None:
  "validate_key D k (String_schema rs) v = None \<longleftrightarrow>
     (\<exists>s. v = Some (JStr s) \<and> s \<noteq> [] \<and> check_rules D k rs s = None)"
proof (cases v)
  case None
  then show ?thesis by simp
next
  case (Some j)
  then show ?thesis by (cases j) simp_all
qed

lemma validate_key_Valid_None:
  "validate_key D k (Valid_schema vs) v = None \<longleftrightarrow> (\<exists>s. v = Some (JStr s) \<and> s \<in> set vs)"
proof (cases v)
  case None
  then show ?thesis by simp
next
  case (Some j)
  then show ?thesis by (cases j) simp_all
qed

text \<open>An own property of the body is what joi validates; without \<^verbatim>\<open>__proto__\<close> nothing else is.\<close>

lemma copy_value_own: "map_of kvs k = Some v \<Longrightarrow> copy_value kvs k = Some v"
  by (simp add: copy_value_def)

lemma copy_value_plain:
  "map_of kvs (str ''__proto__'') = None \<Longrightarrow> copy_value kvs k = map_of kvs k"
  by (simp add: copy_value_def split: option.splits)

lemma copy_value_string_read:
  assumes "copy_value kvs k = Some (JStr v)"
  shows "read (map_of kvs k) = Some None \<or> read (map_of kvs k) = Some (Some v)"
proof (cases "map_of kvs k")
  case None
  then show ?thesis by simp
next
  case (Some j)
  with assms have "j = JStr v" by (simp add: copy_value_def)
  with Some show ?thesis by simp
qed

lemma attempt_login_None:
  "attempt D body login_schema = None \<longleftrightarrow>
     (\<exists>kvs u p. body = JObj kvs
        \<and> copy_value kvs (str ''username'') = Some (JStr u) \<and> u \<noteq> []
        \<and> copy_value kvs (str ''password'') = Some (JStr p) \<and> p \<noteq> []
        \<and> unknown_key login_schema kvs = None)"
  by (cases body)
     (auto simp: attempt_def login_schema_def validate_key_String_None split: option.splits)

lemma validate_key_login_indep:
  "validate_key D k (String_schema []) v = validate_key D' k (String_schema []) v"
proof (cases v)
  case None
  then show ?thesis by simp
next
  case (Some j)
  then show ?thesis by (cases j) simp_all
qed

lemma attempt_login_indep: "attempt D body login_schema = attempt D' body login_schema"
proof (cases body)
  case (JObj kvs)
  have "validate_keys D login_schema kvs = validate_keys D' login_schema kvs"
    by (simp add: login_schema_def validate_key_login_indep [of D _ _ D'] cong: option.case_cong)
  then show ?thesis
    by (simp add: JObj attempt_def)
qed (simp_all add: attempt_def)


lemma validateLogin_None:
  "validateLogin D body = None \<longleftrightarrow> attempt D body login_schema = None"
  by (simp add: validateLogin_def validateReqBody_def split: option.splits)

lemma validated_login_fields:
  assumes "validateLogin D body = None"
  obtains username password where
    "read (field body (str ''username'')) = Some username"
    "read (field body (str ''password'')) = Some password"
proof -
  from assms obtain kvs u p where b: "body = JObj kvs"
    and "copy_value kvs (str ''username'') = Some (JStr u)"
    and "copy_value kvs (str ''password'') = Some (JStr p)"
    unfolding validateLogin_None attempt_login_None by blast
  then have "\<exists>username. read (map_of kvs (str ''username'')) = Some username"
    "\<exists>password. read (map_of kvs (str ''password'')) = Some password"
    using copy_value_string_read by blast+
  then show ?thesis
    using that b by (auto simp: field_def)
qed

text \<open>
  A body without a property \<^verbatim>\<open>__proto__\<close> whose \<open>username\<close> or \<open>password\<close> is absent, not a
  string or empty is rejected by the validation, whatever the directory holds.
\<close>

lemma login_schema_rejects_plain:
  assumes "field body (str ''__proto__'') = None"
    and "absent_or_empty (field body (str ''username''))
         \<or> absent_or_empty (field body (str ''password''))"
  shows "attempt D body login_schema \<noteq> None"
proof
  assume "attempt D body login_schema = None"
  then obtain kvs u p where b: "body = JObj kvs"
    and c: "copy_value kvs (str ''username'') = Some (JStr u)" "u \<noteq> []"
      "copy_value kvs (str ''password'') = Some (JStr p)" "p \<noteq> []"
    unfolding attempt_login_None by blast
  from assms(1) b have "map_of kvs (str ''__proto__'') = None" by (simp add: field_def)
  then have "copy_value kvs k = map_of kvs k" for k by (rule copy_value_plain)
  with assms(2) b c show False by (simp add: field_def)
qed

lemma login_rejects_plain_malformed_credentials:
  assumes "field body (str ''__proto__'') = None"
    and "absent_or_empty (field body (str ''username''))
         \<or> absent_or_empty (field body (str ''password''))"
  shows "\<exists>m. \<forall>D db. login D db body = Response 400 (JObj [(str ''error'', JStr m)])"
proof -
  obtain m where m: "attempt reference_deps body login_schema = Some m"
    using login_schema_rejects_plain [OF assms, of reference_deps] by blast
  have "login D db body = Response 400 (JObj [(str ''error'', JStr m)])" for D db
    using m attempt_login_indep [of D body reference_deps]
    by (simp add: login_def validateLogin_def validateReqBody_def)
  then show ?thesis by auto
qed

lemma attempt_registration_None:
  "attempt D body registration_schema = None \<longleftrightarrow>
     (\<exists>kvs u e t p. body = JObj kvs
        \<and> copy_value kvs (str ''username'') = Some (JStr u) \<and> 3 \<le> length u \<and> length u \<le> 24
        \<and> copy_value kvs (str ''email'') = Some (JStr e) \<and> e \<noteq> [] \<and> isEmail D e
        \<and> copy_value kvs (str ''type'') = Some (JStr t) \<and> (t = str ''user'' \<or> t = str ''admin'')
        \<and> copy_value kvs (str ''password'') = Some (JStr p) \<and> 5 \<le> length p \<and> length p \<le> 24
        \<and> password_custom p = None
        \<and> unknown_key registration_schema kvs = None)"
  by (cases body)
     (auto simp: attempt_def registration_schema_def validate_key_String_None
        validate_key_Valid_None split: option.splits if_splits)

lemma validateRegistration_None:
  "validateRegistration D body = None \<longleftrightarrow> attempt D body registration_schema = None"
  by (simp add: validateRegistration_def validateReqBody_def split: option.splits)

lemma check_rules_isEmail:
  "isEmail D' = isEmail D \<Longrightarrow> check_rules D' k rs v = check_rules D k rs v"
proof (induction rs)
  case Nil
  then show ?case by simp
next
  case (Cons r rs)
  then show ?case by (cases r) (simp_all split: option.splits)
qed

lemma validate_key_isEmail:
  assumes "isEmail D' = isEmail D"
  shows "validate_key D' k s v = validate_key D k s v"
proof (cases v)
  case None
  then show ?thesis by simp
next
  case (Some j)
  show ?thesis
  proof (cases s)
    case (String_schema rs)
    with Some show ?thesis
      by (cases j) (simp_all add: check_rules_isEmail [OF assms])
  next
    case (Valid_schema vs)
    with Some show ?thesis by (cases j) simp_all
  qed
qed

lemma validate_keys_isEmail:
  assumes "isEmail D' = isEmail D"
  shows "validate_keys D' schema kvs = validate_keys D schema kvs"
  by (induction schema) (auto simp: validate_key_isEmail [OF assms] split: option.splits)

lemma validateRegistration_isEmail:
  assumes "isEmail D' = isEmail D"
  shows "validateRegistration D' body = validateRegistration D body"
  by (cases body)
     (simp_all add: validateRegistration_def validateReqBody_def attempt_def
        validate_keys_isEmail [OF assms])

lemma validated_fields:
  assumes "validateRegistration D body = None"
  obtains username email' password type' where
    "read (field body (str ''username'')) = Some username"
    "read (field body (str ''email'')) = Some email'"
    "read (field body (str ''password'')) = Some password"
    "read (field body (str ''type'')) = Some type'"
proof -
  from assms obtain kvs u e t p where b: "body = JObj kvs"
    and "copy_value kvs (str ''username'') = Some (JStr u)"
    and "copy_value kvs (str ''email'') = Some (JStr e)"
    and "copy_value kvs (str ''type'') = Some (JStr t)"
    and "copy_value kvs (str ''password'') = Some (JStr p)"
    unfolding validateRegistration_None attempt_registration_None by blast
  then have "\<exists>v. read (map_of kvs (str ''username'')) = Some v"
    "\<exists>v. read (map_of kvs (str ''email'')) = Some v"
    "\<exists>v. read (map_of kvs (str ''password'')) = Some v"
    "\<exists>v. read (map_of kvs (str ''type'')) = Some v"
    using copy_value_string_read by blast+
  then show ?thesis
    using that b by (auto simp: field_def)
qed

lemma truthy_getUserByUsername:
  "truthy (getUserByUsername db n) \<longleftrightarrow>
     map_of db (to_string n) \<noteq> None \<or> to_string n \<in> set object_prototype_keys"
  by (simp add: getUserByUsername_def split: option.splits)

lemma getUserByEmail_None:
  "getUserByEmail db e = None \<longleftrightarrow> e \<notin> set (emails db)"
  by (auto simp: getUserByEmail_def emails_def find_None_iff)

lemma update_absent: "map_of al k = None \<Longrightarrow> AList.update k v al = al @ [(k, v)]"
  by (induction al) (auto split: if_splits)

text \<open>The outcomes of the handler, for a body whose four properties are strings or undefined.\<close>

lemma register_handler_cases:
  assumes "read (field body (str ''username'')) = Some username"
    and "read (field body (str ''email'')) = Some e"
    and "read (field body (str ''password'')) = Some password"
    and "read (field body (str ''type'')) = Some t"
  shows "register_handler D s db body =
     (if truthy (getUserByUsername db username)
      then (db, errorHandler (UsernameAlreadyExists (to_string username)))
      else if getUserByEmail db e \<noteq> None
      then (db, errorHandler (EmailAlreadyExists (to_string e)))
      else (case password of
              None \<Rightarrow> (db, ServerError (str ''Illegal arguments: undefined, string''))
            | Some p \<Rightarrow>
                (db @ [(to_string username,
                        \<lparr>email = e, type = t, salt = s, passwordhash = hashString D p s\<rparr>)],
                 Response 201
                   (JObj (stringify [(str ''username'', username), (str ''email'', e),
                                     (str ''type'', t)])))))"
  using assms
  by (simp add: register_handler_def truthy_getUserByUsername update_absent hashSync_def
        illegal_arguments_def str_def split: option.splits)

lemma validateReqBody_status:
  "validateReqBody D objectSchema body = Some res \<Longrightarrow> status_code res = 400"
  by (auto simp: validateReqBody_def split: option.splits)

lemma register_unchanged_or_appended:
  "fst (register D s db body) = db \<and> status_code (snd (register D s db body)) \<noteq> 201 \<or>
   (\<exists>username e t p. fst (register D s db body)
        = db @ [(to_string username,
                 \<lparr>email = e, type = t, salt = s, passwordhash = hashString D p s\<rparr>)]
      \<and> map_of db (to_string username) = None
      \<and> to_string username \<notin> set object_prototype_keys \<and> e \<notin> set (emails db)
      \<and> read (field body (str ''username'')) = Some username
      \<and> read (field body (str ''email'')) = Some e
      \<and> read (field body (str ''password'')) = Some (Some p)
      \<and> read (field body (str ''type'')) = Some t
      \<and> snd (register D s db body)
          = Response 201 (JObj (stringify [(str ''username'', username), (str ''email'', e),
                                           (str ''type'', t)])))"
proof (cases "validateRegistration D body")
  case (Some res)
  then have "status_code res = 400"
    unfolding validateRegistration_def by (rule validateReqBody_status)
  with Some show ?thesis by (simp add: register_def)
next
  case None
  then obtain username e password t where f:
    "read (field body (str ''username'')) = Some username"
    "read (field body (str ''email'')) = Some e"
    "read (field body (str ''password'')) = Some password"
    "read (field body (str ''type'')) = Some t"
    by (rule validated_fields)
  show ?thesis
  proof (cases password)
    case None
    then show ?thesis
      using \<open>validateRegistration D body = None\<close>
      by (simp add: register_def register_handler_cases [OF f])
  next
    case (Some p)
    then show ?thesis
      using \<open>validateRegistration D body = None\<close> f
      by (auto simp: register_def register_handler_cases [OF f] truthy_getUserByUsername
            getUserByEmail_None)
  qed
qed

lemma register_error_unchanged:
  assumes "status_code (snd (register D s db body)) \<noteq> 201"
  shows "fst (register D s db body) = db"
  using register_unchanged_or_appended [of D s db body] assms by auto

lemma register_invariant:
  assumes "distinct (usernames db)" and "distinct (emails db)"
  shows "distinct (usernames (fst (register D s db body)))
       \<and> distinct (emails (fst (register D s db body)))"
  using register_unchanged_or_appended [of D s db body] assms
  by (auto simp: map_of_eq_None_iff usernames_def emails_def)

lemma exec_invariant:
  assumes "distinct (usernames db)" and "distinct (emails db)"
  shows "distinct (usernames (fst (exec D c db)))
       \<and> distinct (emails (fst (exec D c db)))"
  using assms register_invariant by (cases c) simp_all

lemma run_invariant:
  "distinct (usernames db) \<Longrightarrow> distinct (emails db) \<Longrightarrow>
   distinct (usernames (run D calls db)) \<and> distinct (emails (run D calls db))"
proof (induction calls arbitrary: db)
  case Nil
  then show ?case by simp
next
  case (Cons c calls)
  have "distinct (usernames (fst (exec D c db))) \<and> distinct (emails (fst (exec D c db)))"
    using Cons.prems by (rule exec_invariant)
  then show ?case using Cons.IH by simp
qed

section \<open>Uniqueness of usernames and emails\<close>

text \<open>
  Claim C3. In every directory reached from the empty one by a sequence of register and
  login calls, no two records have the same username and no two records have the same
  email.
\<close>

theorem directory_usernames_and_emails_unique:
  "distinct (usernames (run D calls [])) \<and> distinct (emails (run D calls []))"
  by (rule run_invariant) (simp_all add: usernames_def emails_def)

section \<open>Failed registrations\<close>

text \<open>
  Claim C4. A registration that does not answer 201 leaves the directory as it was. When
  the validation rejects the request, the answer is the validation's, whatever the
  directory, the salt and the hash functions are: the directory is not read.
\<close>

theorem failed_registration_leaves_directory:
  "(status_code (snd (register D s db body)) \<noteq> 201 \<longrightarrow> fst (register D s db body) = db)
   \<and> (\<forall>res. validateRegistration D body = Some res \<longrightarrow>
        (\<forall>D' s' db'. isEmail D' = isEmail D \<longrightarrow> register D' s' db' body = (db', res)))"
proof (intro conjI allI impI)
  assume "status_code (snd (register D s db body)) \<noteq> 201"
  then show "fst (register D s db body) = db" by (rule register_error_unchanged)
next
  fix res and D' :: deps and s' db'
  assume res: "validateRegistration D body = Some res" and D': "isEmail D' = isEmail D"
  have "validateRegistration D' body = validateRegistration D body"
    using D' by (rule validateRegistration_isEmail)
  with res show "register D' s' db' body = (db', res)"
    by (simp add: register_def)
qed

theorem failed_registration_leaves_directory_witness:
  "fst (register reference_deps (str ''salt'') alice_db (JObj [])) = alice_db
   \<and> register reference_deps (str ''pepper'') []  (JObj [])
       = ([], Response 400 (JObj [(str ''error'', JStr (str ''\"username\" is required''))]))"
  using failed_registration_leaves_directory
    [of reference_deps "str ''salt''" alice_db "JObj []"]
  by (simp add: register_def validateRegistration_def validateReqBody_def attempt_def
        registration_schema_def label_def str_def copy_value_def)

section \<open>Login after registration\<close>

lemma key_username_password [simp]:
  "str ''username'' \<noteq> str ''password''" "str ''password'' \<noteq> str ''username''"
  "str ''username'' \<noteq> str ''__proto__''" "str ''password'' \<noteq> str ''__proto__''"
  by (simp_all add: str_def)

lemma login_validated:
  assumes "validateLogin D body = None"
    and "read (field body (str ''username'')) = Some username"
    and "read (field body (str ''password'')) = Some password"
  shows "login D db body =
     (if \<not> truthy (getUserByUsername db username) then errorHandler InvalidCredentials
      else (case compareSync D password (passwordhash_of (getUserByUsername db username)) of
              Inl err \<Rightarrow> errorHandler err
            | Inr ok \<Rightarrow> if ok then Response 200 (JObj []) else errorHandler InvalidCredentials))"
  using assms
  by (simp add: login_def login_handler_def Let_def split: sum.splits)

lemma validateLogin_creds: "u \<noteq> [] \<Longrightarrow> p \<noteq> [] \<Longrightarrow> validateLogin D (creds u p) = None"
  unfolding validateLogin_None attempt_login_None
  by (simp add: creds_def unknown_key_def copy_keys_def copy_value_def login_schema_def)

lemma field_creds:
  "field (creds u p) (str ''username'') = Some (JStr u)"
  "field (creds u p) (str ''password'') = Some (JStr p)"
  by (simp_all add: creds_def field_def)

lemma login_creds_entry:
  assumes "u \<noteq> []" and "p \<noteq> []" and "map_of db u = Some e"
  shows "login D db (creds u p) =
     (if compareHash D p (passwordhash e) then Response 200 (JObj [])
      else errorHandler InvalidCredentials)"
proof -
  have v: "validateLogin D (creds u p) = None"
    using assms(1,2) by (rule validateLogin_creds)
  have r: "read (field (creds u p) (str ''username'')) = Some (Some u)"
    "read (field (creds u p) (str ''password'')) = Some (Some p)"
    by (simp_all add: field_creds)
  show ?thesis
    using assms(3)
    by (simp add: login_validated [OF v r] getUserByUsername_def compareSync_def)
qed

lemma exec_preserves_entry:
  assumes "map_of db u = Some e"
  shows "map_of (fst (exec D c db)) u = Some e"
proof (cases c)
  case (Register s body)
  then show ?thesis
    using register_unchanged_or_appended [of D s db body] assms by auto
next
  case (Login body)
  then show ?thesis using assms by simp
qed

lemma run_preserves_entry:
  "map_of db u = Some e \<Longrightarrow> map_of (run D calls db) u = Some e"
proof (induction calls arbitrary: db)
  case Nil
  then show ?case by simp
next
  case (Cons c calls)
  have "map_of (fst (exec D c db)) u = Some e"
    using Cons.prems by (rule exec_preserves_entry)
  then show ?case using Cons.IH by simp
qed

lemma register_success_entry:
  assumes "register D s db body = (db', res)" and "status_code res = 201"
    and "field body (str ''username'') = Some (JStr u)"
    and "field body (str ''password'') = Some (JStr p)"
  shows "\<exists>e. map_of db' u = Some e \<and> passwordhash e = hashString D p s \<and> salt e = s
           \<and> read (field body (str ''email'')) = Some (email e)
           \<and> read (field body (str ''type'')) = Some (type e)
           \<and> res = Response 201 (JObj (stringify [(str ''username'', Some u),
                                   (str ''email'', email e), (str ''type'', type e)]))
           \<and> db' = db @ [(u, e)] \<and> map_of db u = None"
  using register_unchanged_or_appended [of D s db body] assms by (auto simp: map_add_def)

lemma register_success_valid:
  assumes "register D s db body = (db', res)" and "status_code res = 201"
  shows "validateRegistration D body = None"
proof (cases "validateRegistration D body")
  case None
  then show ?thesis .
next
  case (Some r)
  then have "status_code r = 400"
    unfolding validateRegistration_def by (rule validateReqBody_status)
  with Some assms show ?thesis by (simp add: register_def)
qed

lemma validated_own_lengths:
  assumes "validateRegistration D body = None"
  shows "field body (str ''username'') = Some (JStr u) \<Longrightarrow> 3 \<le> length u"
    and "field body (str ''password'') = Some (JStr p) \<Longrightarrow> 5 \<le> length p"
proof -
  from assms obtain kvs u' p' where b: "body = JObj kvs"
    and c: "copy_value kvs (str ''username'') = Some (JStr u')" "3 \<le> length u'"
      "copy_value kvs (str ''password'') = Some (JStr p')" "5 \<le> length p'"
    unfolding validateRegistration_None attempt_registration_None by blast
  show "field body (str ''username'') = Some (JStr u) \<Longrightarrow> 3 \<le> length u"
    using b c copy_value_own [of kvs "str ''username''" "JStr u"] by (simp add: field_def)
  show "field body (str ''password'') = Some (JStr p) \<Longrightarrow> 5 \<le> length p"
    using b c copy_value_own [of kvs "str ''password''" "JStr p"] by (simp add: field_def)
qed




text \<open>
  It fails for a second reason, which lies in bcryptjs and not in the application: a
  password other than the registered one that the comparison accepts against the stored
  hash logs in. bcrypt reads the password, ended by a zero byte, cyclically up to 72
  bytes, so that a password \<open>p\<close> and \<open>p\<close>, zero, \<open>p\<close> have the same hash.
\<close>

lemma login_other_password_accepted:
  assumes "register D s db body = (db', res)" and "status_code res = 201"
    and "field body (str ''username'') = Some (JStr u)"
    and "field body (str ''password'') = Some (JStr p)"
    and "p' \<noteq> []" and "compareHash D p' (hashString D p s)"
  shows "login D db' (creds u p') = Response 200 (JObj [])"
proof -
  obtain e where e: "map_of db' u = Some e" "passwordhash e = hashString D p s"
    using register_success_entry [OF assms(1-4)] by blast
  have "validateRegistration D body = None"
    using assms(1,2) by (rule register_success_valid)
  then have "3 \<le> length u"
    using assms(3) validated_own_lengths by blast
  then have "u \<noteq> []" by auto
  then show ?thesis
    using assms(6) e(2) by (simp add: login_creds_entry [OF _ assms(5) e(1)])
qed

section \<open>Names inherited from the prototype\<close>

text \<open>
  Claim C2 at a failing input. The directory is empty, so it holds no record under the
  username \<^verbatim>\<open>constructor\<close> and none with the email; the request passes the validation.
  \<^verbatim>\<open>MEMORY_DB["constructor"]\<close> is the inherited \<^verbatim>\<open>Object\<close> function, which is truthy, and
  the registration is refused with \<open>UsernameAlreadyExists\<close> instead of creating the record.
\<close>

theorem register_prototype_name_conflict:
  "map_of ([] :: memory_db) (str ''constructor'') = None
   \<and> register reference_deps (str ''salt'') []
        (JObj [(str ''username'', JStr (str ''constructor'')),
               (str ''email'', JStr (str ''c@x.com'')),
               (str ''type'', JStr (str ''user'')),
               (str ''password'', JStr (str ''Abc!2''))])
       = ([], Response 409
               (JObj [(str ''error_name'', JStr (str ''UsernameAlreadyExists'')),
                      (str ''error_message'',
                       JStr (str ''A user with the username constructor already exists.''))]))"
  by (simp add: eval_defs)

text \<open>
  The same lookup in \<^verbatim>\<open>/login\<close>: the inherited value has no \<^verbatim>\<open>passwordhash\<close>, bcryptjs
  throws, and the request ends in the default handler.
\<close>

lemma login_prototype_name:
  "login reference_deps [] (creds (str ''constructor'') (str ''Abc!2''))
     = ServerError (str ''Illegal arguments: string, undefined'')"
  by (simp add: eval_defs)

section \<open>Unknown username and wrong password\<close>

text \<open>
  Claim C5, amended. Of two login requests that pass the validation, against the same
  directory, one whose username is a string that is not in the directory and is not a
  name every object inherits from \<^verbatim>\<open>Object.prototype\<close>, and one whose username is in the
  directory and whose password is a string that does not verify against the stored
  hash: both get the same response, 401 with the name \<open>InvalidCredentials\<close> and the same
  message.
\<close>

theorem invalid_credentials_indistinguishable:
  assumes "validateLogin D request1 = None" and "validateLogin D request2 = None"
    and "field request1 (str ''username'') = Some (JStr u1)"
    and "map_of db u1 = None" and "u1 \<notin> set object_prototype_keys"
    and "field request2 (str ''username'') = Some (JStr u2)"
    and "field request2 (str ''password'') = Some (JStr p2)"
    and "map_of db u2 = Some e" and "\<not> compareHash D p2 (passwordhash e)"
  shows "login D db request1 = login D db request2
       \<and> login D db request1
           = Response 401 (JObj [(str ''error_name'', JStr (str ''InvalidCredentials'')),
                                 (str ''error_message'', JStr (str ''Invalid username/password.''))])"
proof -
  obtain p1 where p1: "read (field request1 (str ''password'')) = Some p1"
    using assms(1) by (rule validated_login_fields)
  have u1: "read (field request1 (str ''username'')) = Some (Some u1)"
    using assms(3) by simp
  have r2: "read (field request2 (str ''username'')) = Some (Some u2)"
    "read (field request2 (str ''password'')) = Some (Some p2)"
    using assms(6,7) by simp_all
  have "login D db request1 = errorHandler InvalidCredentials"
    using assms(4,5) by (simp add: login_validated [OF assms(1) u1 p1] getUserByUsername_def)
  moreover have "login D db request2 = errorHandler InvalidCredentials"
    using assms(8,9)
    by (simp add: login_validated [OF assms(2) r2] getUserByUsername_def compareSync_def)
  ultimately show ?thesis by simp
qed

theorem invalid_credentials_indistinguishable_witness:
  "login reference_deps alice_db (creds (str ''nobody'') (str ''Abc!2''))
     = login reference_deps alice_db (creds (str ''alice'') (str ''wrong''))
   \<and> login reference_deps alice_db (creds (str ''nobody'') (str ''Abc!2''))
     = Response 401 (JObj [(str ''error_name'', JStr (str ''InvalidCredentials'')),
                           (str ''error_message'', JStr (str ''Invalid username/password.''))])"
proof -
  have v: "validateLogin reference_deps (creds (str ''nobody'') (str ''Abc!2'')) = None"
    "validateLogin reference_deps (creds (str ''alice'') (str ''wrong'')) = None"
    by (simp_all add: validateLogin_creds str_def)
  have a: "map_of alice_db (str ''nobody'') = None" "str ''nobody'' \<notin> set object_prototype_keys"
    "map_of alice_db (str ''alice'') = Some alice_entry"
    "\<not> compareHash reference_deps (str ''wrong'') (passwordhash alice_entry)"
    by (simp_all add: alice_db_def alice_entry_def str_def object_prototype_keys_def
          reference_deps_def)
  show ?thesis
    by (rule invalid_credentials_indistinguishable
          [OF v field_creds(1) a(1,2) field_creds a(3,4)])
qed

text \<open>
  Claim C5 as stated fails when a request does not pass the validation: the username
  \<^verbatim>\<open>nobody\<close> is absent from the directory, and with an empty password the answer is the
  validation's 400, which differs from the 401 of the wrong password.
\<close>

theorem invalid_credentials_counterexample:
  "map_of alice_db (str ''nobody'') = None
   \<and> map_of alice_db (str ''alice'') = Some alice_entry
   \<and> \<not> compareHash reference_deps (str ''wrong'') (passwordhash alice_entry)
   \<and> login reference_deps alice_db (creds (str ''nobody'') [])
       = Response 400 (JObj [(str ''error'', JStr (str ''\"password\" is not allowed to be empty''))])
   \<and> login reference_deps alice_db (creds (str ''alice'') (str ''wrong''))
       = Response 401 (JObj [(str ''error_name'', JStr (str ''InvalidCredentials'')),
                             (str ''error_message'', JStr (str ''Invalid username/password.''))])
   \<and> login reference_deps alice_db (creds (str ''nobody'') [])
       \<noteq> login reference_deps alice_db (creds (str ''alice'') (str ''wrong''))"
  by (simp add: eval_defs)

section \<open>The first violated rule\<close>

lemma check_rules_first:
  "check_rules D k rs v =
     (case List.map_filter (\<lambda>r. check_rule D k r v) rs of [] \<Rightarrow> None | m # _ \<Rightarrow> Some m)"
  by (induction rs) (simp_all add: map_filter_simps split: option.splits)

lemma validate_key_first:
  "validate_key D k s v = (case key_violations D k s v of [] \<Rightarrow> None | m # _ \<Rightarrow> Some m)"
proof (cases v)
  case None
  then show ?thesis by simp
next
  case (Some j)
  show ?thesis
  proof (cases s)
    case (String_schema rs)
    with Some show ?thesis by (cases j) (simp_all add: check_rules_first)
  next
    case (Valid_schema vs)
    with Some show ?thesis by (cases j) simp_all
  qed
qed

lemma validate_keys_first:
  "validate_keys D schema kvs =
     (case violations D schema kvs of [] \<Rightarrow> None | m # _ \<Rightarrow> Some m)"
proof (induction schema)
  case Nil
  then show ?case by (simp add: violations_def)
next
  case (Cons ks schema)
  obtain k s where ks: "ks = (k, s)" by (cases ks)
  show ?case
  proof (cases "key_violations D k s (copy_value kvs k)")
    case Nil
    then show ?thesis
      using Cons.IH by (simp add: ks validate_key_first violations_def)
  next
    case (Cons m ms)
    then show ?thesis
      by (simp add: ks validate_key_first violations_def)
  qed
qed

text \<open>
  Claim C7. When a registration request violates rules, one or several, the validation
  reports the message of the first violated rule alone, in the declared order of the
  fields \<open>username\<close>, \<open>email\<close>, \<open>type\<close>, \<open>password\<close> and of the rules of a field; the
  response carries that single message and the directory is unchanged.
\<close>

theorem first_violation_reported:
  assumes "violations D registration_schema kvs = m # ms"
  shows "attempt D (JObj kvs) registration_schema = Some m
       \<and> register D s db (JObj kvs) = (db, Response 400 (JObj [(str ''error'', JStr m)]))
       \<and> map fst registration_schema
           = [str ''username'', str ''email'', str ''type'', str ''password'']"
proof -
  have "attempt D (JObj kvs) registration_schema = Some m"
    using assms by (simp add: attempt_def validate_keys_first)
  then show ?thesis
    by (simp add: register_def validateRegistration_def validateReqBody_def
          registration_schema_def)
qed

theorem first_violation_reported_witness:
  "violations reference_deps registration_schema sloppy_request
     = [str ''\"username\" length must be at least 3 characters long'',
        str ''\"email\" must be a valid email'',
        str ''\"type\" must be one of [user, admin]'',
        str ''\"password\" length must be at least 5 characters long'',
        str ''password must have an upper case character'']
   \<and> attempt reference_deps (JObj sloppy_request) registration_schema
       = Some (str ''\"username\" length must be at least 3 characters long'')
   \<and> register reference_deps (str ''salt'') alice_db (JObj sloppy_request)
       = (alice_db, Response 400 (JObj [(str ''error'',
            JStr (str ''\"username\" length must be at least 3 characters long''))]))"
proof -
  have v: "violations reference_deps registration_schema sloppy_request
     = [str ''\"username\" length must be at least 3 characters long'',
        str ''\"email\" must be a valid email'',
        str ''\"type\" must be one of [user, admin]'',
        str ''\"password\" length must be at least 5 characters long'',
        str ''password must have an upper case character'']"
    by (simp add: violations_def registration_schema_def sloppy_request_def map_filter_simps
          label_def only_message_def str_def decimal.simps reference_deps_def
          password_custom_def upper_message_def is_upper_def copy_value_def)
  show ?thesis
    using first_violation_reported [OF v, of "str ''salt''" alice_db] v by simp
qed

section \<open>The character classes of a password\<close>

lemma class_messages_distinct:
  "upper_message \<noteq> lower_message" "upper_message \<noteq> special_message"
  "lower_message \<noteq> special_message"
  by (simp_all add: upper_message_def lower_message_def special_message_def str_def)

lemma password_custom_missing:
  assumes "\<not> list_ex is_upper p \<or> \<not> list_ex is_lower p \<or> list_all alnum p"
  shows "password_custom p =
     Some (if \<not> list_ex is_upper p then upper_message
           else if \<not> list_ex is_lower p then lower_message else special_message)"
  using assms by (auto simp: password_custom_def Let_def)

text \<open>
  Claim C6, amended. For a request whose \<open>username\<close>, \<open>email\<close> and \<open>type\<close> pass their
  rules and whose password is a string of 5 to 24 code units that misses a character
  class, the reported message is that of the first missing class, in the order upper
  case, lower case, special; the three messages differ from each other.
\<close>

theorem password_class_message:
  assumes "map_of kvs (str ''username'') = Some (JStr u)" and "3 \<le> length u" and "length u \<le> 24"
    and "map_of kvs (str ''email'') = Some (JStr e)" and "e \<noteq> []" and "isEmail D e"
    and "map_of kvs (str ''type'') = Some (JStr t)" and "t = str ''user'' \<or> t = str ''admin''"
    and "map_of kvs (str ''password'') = Some (JStr p)" and "5 \<le> length p" and "length p \<le> 24"
    and "\<not> list_ex is_upper p \<or> \<not> list_ex is_lower p \<or> list_all alnum p"
  shows "attempt D (JObj kvs) registration_schema =
           Some (if \<not> list_ex is_upper p then upper_message
                 else if \<not> list_ex is_lower p then lower_message else special_message)
       \<and> upper_message \<noteq> lower_message \<and> upper_message \<noteq> special_message
       \<and> lower_message \<noteq> special_message"
proof -
  from assms(2,10) have ne: "u \<noteq> []" "p \<noteq> []" by auto
  have c: "copy_value kvs (str ''username'') = Some (JStr u)"
    "copy_value kvs (str ''email'') = Some (JStr e)"
    "copy_value kvs (str ''type'') = Some (JStr t)"
    "copy_value kvs (str ''password'') = Some (JStr p)"
    using assms(1,4,7,9) by (simp_all add: copy_value_own)
  have "validate_keys D registration_schema kvs = password_custom p"
    using assms(2,3,5,6,8,10,11) ne c
    by (auto simp: registration_schema_def split: option.splits)
  then show ?thesis
    using password_custom_missing [OF assms(12)] class_messages_distinct
    by (simp add: attempt_def)
qed

theorem password_class_message_witness:
  "attempt reference_deps
     (JObj [(str ''username'', JStr (str ''alice'')), (str ''email'', JStr (str ''a@x.com'')),
            (str ''type'', JStr (str ''user'')), (str ''password'', JStr (str ''ABC!2''))])
     registration_schema = Some lower_message"
  using password_class_message
    [of "[(str ''username'', JStr (str ''alice'')), (str ''email'', JStr (str ''a@x.com'')),
          (str ''type'', JStr (str ''user'')), (str ''password'', JStr (str ''ABC!2''))]"
        "str ''alice''" "str ''a@x.com''" reference_deps "str ''user''" "str ''ABC!2''"]
  by (simp add: str_def reference_deps_def is_upper_def is_lower_def)

text \<open>
  Claim C6 as stated fails when an earlier field violates a rule: the password
  \<^verbatim>\<open>abcde\<close> misses an upper case character, and the reported message is the one of the
  username, which is too short.
\<close>

theorem password_class_message_counterexample:
  "map_of short_name_request (str ''password'') = Some (JStr (str ''abcde''))
   \<and> 5 \<le> length (str ''abcde'') \<and> length (str ''abcde'') \<le> 24
   \<and> \<not> list_ex is_upper (str ''abcde'')
   \<and> attempt reference_deps (JObj short_name_request) registration_schema
       = Some (str ''\"username\" length must be at least 3 characters long'')
   \<and> attempt reference_deps (JObj short_name_request) registration_schema \<noteq> Some upper_message"
  by (simp add: short_name_request_def str_def is_upper_def attempt_def registration_schema_def
        label_def decimal.simps upper_message_def copy_value_def)

section \<open>What the responses contain\<close>









section \<open>Credentials under \<^verbatim>\<open>__proto__\<close>\<close>

text \<open>
  Claim C10 at a failing input. The body has neither a \<open>username\<close> nor a \<open>password\<close>; both
  are strings in the object under \<^verbatim>\<open>__proto__\<close>, where joi finds them in its copy, so the
  validation calls \<^verbatim>\<open>next()\<close>. The handler reads \<^verbatim>\<open>undefined\<close> twice from the body and looks
  the name up: the answer is \<open>InvalidCredentials\<close> where no user is called \<^verbatim>\<open>undefined\<close>, and
  an uncaught error of \<^verbatim>\<open>compareSync\<close> where one is. The directory is consulted.
\<close>

theorem login_inherited_credentials:
  "absent_or_empty (field inherited_credentials (str ''username''))
   \<and> absent_or_empty (field inherited_credentials (str ''password''))
   \<and> validateLogin reference_deps inherited_credentials = None
   \<and> login reference_deps alice_db inherited_credentials
       = Response 401 (JObj [(str ''error_name'', JStr (str ''InvalidCredentials'')),
                             (str ''error_message'', JStr (str ''Invalid username/password.''))])
   \<and> login reference_deps undefined_db inherited_credentials
       = ServerError (str ''Illegal arguments: undefined, string'')"
  by (simp add: eval_defs inherited_credentials_def undefined_db_def validateReqBody_def)

section \<open>Registering a username twice\<close>

text \<open>
  One call after the other: once a username is registered, every later registration
  with that username is refused with \<open>UsernameAlreadyExists\<close> and changes nothing. The
  handler is synchronous and takes no lock; that calls do not interleave is a property
  of the runtime, which this model of single calls does not express.
\<close>

lemma register_same_username_again:
  assumes "register D s db body = (db', res)" and "status_code res = 201"
    and "field body (str ''username'') = Some (JStr u)"
    and "validateRegistration D body2 = None"
    and "field body2 (str ''username'') = Some (JStr u)"
  shows "register D s2 (run D calls db') body2
           = (run D calls db', errorHandler (UsernameAlreadyExists u))"
proof -
  have "\<exists>e. map_of db' u = Some e"
    using register_unchanged_or_appended [of D s db body] assms(1-3)
    by (auto simp: map_add_def)
  then obtain e where "map_of db' u = Some e" ..
  then have later: "map_of (run D calls db') u = Some e"
    by (rule run_preserves_entry)
  obtain u2 e2 p2 t2 where f: "read (field body2 (str ''username'')) = Some u2"
    "read (field body2 (str ''email'')) = Some e2"
    "read (field body2 (str ''password'')) = Some p2"
    "read (field body2 (str ''type'')) = Some t2"
    using assms(4) by (rule validated_fields)
  with assms(5) have "u2 = Some u" by simp
  with later show ?thesis
    using assms(4)
    by (simp add: register_def register_handler_cases [OF f] truthy_getUserByUsername)
qed

end
